theory Spec2Isabelle
  imports Main "HOL-Library.Sublist"
begin

section \<open>Data model of the media store\<close>

text \<open>
  The store of \<^verbatim>\<open>src/stores/media-store.ts\<close> keeps two arrays, folders and media files,
  a selected folder and a loading flag. Optional TypeScript fields are options: \<open>None\<close>
  stands for both \<^verbatim>\<open>undefined\<close> and \<^verbatim>\<open>null\<close>, which the tests of the code on these fields
  (\<^verbatim>\<open>!x\<close>, \<^verbatim>\<open>x || ''\<close>, \<^verbatim>\<open>x ?? null\<close>, and \<^verbatim>\<open>x === s\<close> for a string \<open>s\<close>) do not tell
  apart. \<^verbatim>\<open>parentId\<close> and \<^verbatim>\<open>currentFolderId\<close> are \<^verbatim>\<open>string | null\<close>, so \<open>None\<close> is
  \<^verbatim>\<open>null\<close> there. Strings are byte lists; the non-ASCII folder names are their UTF-8
  bytes, which keeps string equality as it is in the source. Numbers are only carried
  along. The \<^verbatim>\<open>File\<close> payload of a media item is outside the model.
\<close>

datatype MediaType = Image | Video | Audio

datatype MediaSource = SrcUpload | SrcAiImage | SrcAiVideo

record MediaFolder =
  folder_id :: string
  folder_name :: string
  parentId :: "string option"
  folder_projectId :: "string option"
  isSystem :: "bool option"
  isAutoCreated :: "bool option"
  category :: "string option"
  createdAt :: int

record MediaFile =
  media_id :: string
  media_name :: string
  media_type :: MediaType
  url :: "string option"
  thumbnailUrl :: "string option"
  duration :: "int option"
  source :: "MediaSource option"
  folderId :: "string option"
  media_projectId :: "string option"

record MediaPersistedState =
  folders :: "MediaFolder list"
  mediaFiles :: "MediaFile list"

record MediaStore = MediaPersistedState +
  currentFolderId :: "string option"
  isLoading :: bool

text \<open>JavaScript truthiness of an optional string (\<^verbatim>\<open>undefined\<close>, \<^verbatim>\<open>null\<close> and the empty
  string are falsy) and of an optional boolean.\<close>

fun truthyS :: "string option \<Rightarrow> bool" where
  "truthyS None = False"
| "truthyS (Some s) = (s \<noteq> [])"

fun truthyB :: "bool option \<Rightarrow> bool" where
  "truthyB None = False"
| "truthyB (Some b) = b"

text \<open>\<^verbatim>\<open>x || ''\<close> on an optional string.\<close>

fun orEmpty :: "string option \<Rightarrow> string" where
  "orEmpty None = []"
| "orEmpty (Some s) = s"

section \<open>Split and merge for per-project storage\<close>

definition projectFolder :: "string \<Rightarrow> MediaFolder \<Rightarrow> bool" where
  "projectFolder pid f = (folder_projectId f = Some pid \<and> \<not> truthyB (isSystem f))"

definition projectFile :: "string \<Rightarrow> MediaFile \<Rightarrow> bool" where
  "projectFile pid m = (media_projectId m = Some pid)"

definition sharedFolder :: "MediaFolder \<Rightarrow> bool" where
  "sharedFolder f =
     (truthyB (isSystem f) \<or> (\<not> truthyS (folder_projectId f) \<and> \<not> truthyB (isAutoCreated f)))"

definition sharedFile :: "MediaFile \<Rightarrow> bool" where
  "sharedFile m = (\<not> truthyS (media_projectId m))"

record SplitResult =
  projectData :: MediaPersistedState
  sharedData :: MediaPersistedState

definition splitMediaData :: "MediaPersistedState \<Rightarrow> string \<Rightarrow> SplitResult" where
  "splitMediaData state pid =
     \<lparr> projectData =
         \<lparr> folders = filter (projectFolder pid) (folders state),
           mediaFiles = filter (projectFile pid) (mediaFiles state) \<rparr>,
       sharedData =
         \<lparr> folders = filter sharedFolder (folders state),
           mediaFiles = filter sharedFile (mediaFiles state) \<rparr> \<rparr>"

fun foldersOrEmpty :: "MediaPersistedState option \<Rightarrow> MediaFolder list" where
  "foldersOrEmpty None = []"
| "foldersOrEmpty (Some d) = folders d"

fun mediaFilesOrEmpty :: "MediaPersistedState option \<Rightarrow> MediaFile list" where
  "mediaFilesOrEmpty None = []"
| "mediaFilesOrEmpty (Some d) = mediaFiles d"

definition mergeMediaData ::
  "MediaPersistedState option \<Rightarrow> MediaPersistedState option \<Rightarrow> MediaPersistedState" where
  "mergeMediaData projectData' sharedData' =
     \<lparr> folders = foldersOrEmpty sharedData' @ foldersOrEmpty projectData',
       mediaFiles = mediaFilesOrEmpty sharedData' @ mediaFilesOrEmpty projectData' \<rparr>"

text \<open>The round trip of the claims: \<^verbatim>\<open>merge(split(C,p).project, split(C,p).shared)\<close>.\<close>

definition splitThenMerge :: "MediaPersistedState \<Rightarrow> string \<Rightarrow> MediaPersistedState" where
  "splitThenMerge C pid =
     mergeMediaData (Some (projectData (splitMediaData C pid)))
                    (Some (sharedData (splitMediaData C pid)))"

section \<open>Folder and item construction\<close>

text \<open>\<^verbatim>\<open>addFolder\<close>: the id and the time stamp come from \<^verbatim>\<open>generateUUID()\<close> and
  \<^verbatim>\<open>Date.now()\<close>, which are parameters here. \<^verbatim>\<open>isSystem\<close> and \<^verbatim>\<open>category\<close> stay absent.\<close>

definition newFolder ::
  "string \<Rightarrow> int \<Rightarrow> string \<Rightarrow> string option \<Rightarrow> string option \<Rightarrow> MediaFolder" where
  "newFolder uuid now name parent pid =
     \<lparr> folder_id = uuid, folder_name = name, parentId = parent, folder_projectId = pid,
       isSystem = None, isAutoCreated = Some (truthyS pid), category = None,
       createdAt = now \<rparr>"

definition addFolder ::
  "string \<Rightarrow> int \<Rightarrow> string \<Rightarrow> string option \<Rightarrow> string option \<Rightarrow> MediaStore
     \<Rightarrow> string \<times> MediaStore" where
  "addFolder uuid now name parent pid s =
     (uuid, s\<lparr>folders := folders s @ [newFolder uuid now name parent pid]\<rparr>)"


section \<open>Deleting a folder with its descendants\<close>

text \<open>
  \<^verbatim>\<open>getDescendantIds\<close> is the local recursive function of \<^verbatim>\<open>deleteFolder\<close>: the folder id
  first, then the ids that the recursive calls return for the children, in array order. The
  recursion follows \<^verbatim>\<open>parentId\<close> links with no visited set, so on a cycle it never
  returns; the first argument bounds the call depth and \<open>None\<close> is the call that does not
  return (the engine's stack overflow, raised before \<^verbatim>\<open>set\<close> is reached).
\<close>

fun getDescendantIds :: "nat \<Rightarrow> MediaFolder list \<Rightarrow> string \<Rightarrow> string list option" where
  "getDescendantIds 0 fs folderId' = None"
| "getDescendantIds (Suc depth) fs folderId' =
     (let children = filter (\<lambda>f. parentId f = Some folderId') fs in
      map_option (\<lambda>ds. folderId' # concat ds)
        (those (map (\<lambda>c. getDescendantIds depth fs (folder_id c)) children)))"

text \<open>\<^verbatim>\<open>target?.isSystem\<close> for \<^verbatim>\<open>target = folders.find((f) => f.id === id)\<close>.\<close>

definition targetIsSystem :: "MediaFolder list \<Rightarrow> string \<Rightarrow> bool" where
  "targetIsSystem fs ident =
     (case find (\<lambda>f. folder_id f = ident) fs of
        None \<Rightarrow> False
      | Some target \<Rightarrow> truthyB (isSystem target))"

definition deleteFolder :: "nat \<Rightarrow> string \<Rightarrow> MediaStore \<Rightarrow> MediaStore option" where
  "deleteFolder depth ident s =
     (if targetIsSystem (folders s) ident then Some s
      else case getDescendantIds depth (folders s) ident of
        None \<Rightarrow> None
      | Some folderIdsToDelete \<Rightarrow>
          Some (s\<lparr> folders := filter (\<lambda>f. folder_id f \<notin> set folderIdsToDelete) (folders s),
                  mediaFiles :=
                    map (\<lambda>f. if orEmpty (folderId f) \<in> set folderIdsToDelete
                              then f\<lparr>folderId := None\<rparr> else f) (mediaFiles s),
                  currentFolderId :=
                    (if orEmpty (currentFolderId s) \<in> set folderIdsToDelete then None
                     else currentFolderId s) \<rparr>))"

text \<open>The parent-to-child links of a folder list, as pairs of ids, and the ids reachable
  from an id along them (the id itself included).\<close>

definition childLinks :: "MediaFolder list \<Rightarrow> (string \<times> string) set" where
  "childLinks fs =
     set (concat (map (\<lambda>f. case parentId f of None \<Rightarrow> [] | Some p \<Rightarrow> [(p, folder_id f)]) fs))"

definition subtreeIds :: "MediaFolder list \<Rightarrow> string \<Rightarrow> string set" where
  "subtreeIds fs ident = (childLinks fs)\<^sup>* `` {ident}"

section \<open>System folders\<close>

record SystemCategory =
  cat_category :: string
  cat_name :: string
  cat_icon :: string

definition name_AI_image :: string where
  "name_AI_image = ''AI'' @ [CHR 0xE5, CHR 0x9B, CHR 0xBE, CHR 0xE7, CHR 0x89, CHR 0x87]"

definition name_AI_video :: string where
  "name_AI_video = ''AI'' @ [CHR 0xE8, CHR 0xA7, CHR 0x86, CHR 0xE9, CHR 0xA2, CHR 0x91]"

definition name_upload :: string where
  "name_upload =
     [CHR 0xE4, CHR 0xB8, CHR 0x8A, CHR 0xE4, CHR 0xBC, CHR 0xA0,
      CHR 0xE6, CHR 0x96, CHR 0x87, CHR 0xE4, CHR 0xBB, CHR 0xB6]"

text \<open>The legacy folder name of the migration in \<^verbatim>\<open>initSystemFolders\<close>.\<close>

definition name_legacy_AI :: string where
  "name_legacy_AI = ''AI'' @ [CHR 0xE7, CHR 0x94, CHR 0x9F, CHR 0xE6, CHR 0x88, CHR 0x90]"

definition SYSTEM_CATEGORIES :: "SystemCategory list" where
  "SYSTEM_CATEGORIES =
     [ \<lparr> cat_category = ''ai-image'', cat_name = name_AI_image, cat_icon = ''Sparkles'' \<rparr>,
       \<lparr> cat_category = ''ai-video'', cat_name = name_AI_video, cat_icon = ''Film'' \<rparr>,
       \<lparr> cat_category = ''upload'', cat_name = name_upload, cat_icon = ''CloudUpload'' \<rparr> ]"

definition systemFolder :: "string \<Rightarrow> int \<Rightarrow> string \<Rightarrow> string \<Rightarrow> MediaFolder" where
  "systemFolder uuid now name cat =
     \<lparr> folder_id = uuid, folder_name = name, parentId = None, folder_projectId = None,
       isSystem = Some True, isAutoCreated = None, category = Some cat, createdAt = now \<rparr>"

definition isSystemOf :: "string \<Rightarrow> MediaFolder \<Rightarrow> bool" where
  "isSystemOf cat f = (truthyB (isSystem f) \<and> category f = Some cat)"

text \<open>The \<^verbatim>\<open>for\<close> loop of \<^verbatim>\<open>initSystemFolders\<close> over the categories. The \<open>k\<close>-th call of
  \<^verbatim>\<open>generateUUID()\<close> returns \<open>uuid k\<close> and the \<open>k\<close>-th \<^verbatim>\<open>Date.now()\<close> returns \<open>now k\<close>.\<close>

fun initLoop ::
  "(nat \<Rightarrow> string) \<Rightarrow> (nat \<Rightarrow> int) \<Rightarrow> MediaFolder list \<Rightarrow> SystemCategory list \<Rightarrow> nat
     \<Rightarrow> MediaFolder list \<Rightarrow> MediaFolder list" where
  "initLoop uuid now fs [] k newFolders = newFolders"
| "initLoop uuid now fs (c # cs) k newFolders =
     (if find (isSystemOf (cat_category c)) fs = None
      then initLoop uuid now fs cs (Suc k)
             (newFolders @ [systemFolder (uuid k) (now k) (cat_name c) (cat_category c)])
      else initLoop uuid now fs cs k newFolders)"

text \<open>\<^verbatim>\<open>findIndex\<close> followed by \<^verbatim>\<open>splice(idx, 1)\<close> when the index is not negative.\<close>

fun spliceFirst :: "('a \<Rightarrow> bool) \<Rightarrow> 'a list \<Rightarrow> 'a list" where
  "spliceFirst P [] = []"
| "spliceFirst P (x # xs) = (if P x then xs else x # spliceFirst P xs)"

definition appendNewFolders :: "MediaFolder list \<Rightarrow> MediaStore \<Rightarrow> MediaStore" where
  "appendNewFolders newFolders s =
     (if length newFolders > 0 then s\<lparr>folders := folders s @ newFolders\<rparr> else s)"

definition initSystemFolders :: "(nat \<Rightarrow> string) \<Rightarrow> (nat \<Rightarrow> int) \<Rightarrow> MediaStore \<Rightarrow> MediaStore" where
  "initSystemFolders uuid now s =
     (let fs = folders s;
          newFolders = initLoop uuid now fs SYSTEM_CATEGORIES 0 [] in
      case find (\<lambda>f. folder_name f = name_legacy_AI \<and> \<not> truthyB (isSystem f) \<and> parentId f = None) fs of
        None \<Rightarrow> appendNewFolders newFolders s
      | Some legacyAiFolder \<Rightarrow>
          (let hasAiImageFolder =
                 (find (isSystemOf ''ai-image'') fs \<noteq> None
                  \<or> find (\<lambda>f. category f = Some ''ai-image'') newFolders \<noteq> None) in
           if \<not> hasAiImageFolder
           then appendNewFolders (spliceFirst (\<lambda>f. category f = Some ''ai-image'') newFolders)
                  (s\<lparr>folders :=
                       map (\<lambda>f. if folder_id f = folder_id legacyAiFolder
                                 then f\<lparr> folder_name := name_AI_image, isSystem := Some True,
                                        category := Some ''ai-image'', folder_projectId := None \<rparr>
                                 else f) (folders s)\<rparr>)
           else appendNewFolders newFolders s))"

text \<open>The system folders of one category in a folder list.\<close>

definition systemFoldersOf :: "string \<Rightarrow> MediaFolder list \<Rightarrow> MediaFolder list" where
  "systemFoldersOf cat fs = filter (isSystemOf cat) fs"

section \<open>Project scoping\<close>

definition assignProjectToUnscoped :: "string \<Rightarrow> MediaStore \<Rightarrow> MediaStore" where
  "assignProjectToUnscoped projectId s =
     s\<lparr> mediaFiles :=
          map (\<lambda>media. if truthyS (media_projectId media) then media
                        else media\<lparr>media_projectId := Some projectId\<rparr>) (mediaFiles s),
        folders :=
          map (\<lambda>folder. if truthyS (folder_projectId folder) \<or> truthyB (isSystem folder)
                         then folder
                         else folder\<lparr>folder_projectId := Some projectId\<rparr>) (folders s) \<rparr>"

section \<open>Media items: adding from a URL, removing, loading\<close>

record UrlOptions =
  opt_url :: string
  opt_name :: string
  opt_type :: MediaType
  opt_source :: MediaSource
  opt_thumbnailUrl :: "string option"
  opt_duration :: "int option"
  opt_folderId :: "string option"
  opt_projectId :: "string option"

definition newUrlItem :: "string \<Rightarrow> UrlOptions \<Rightarrow> MediaFile" where
  "newUrlItem uuid opts =
     \<lparr> media_id = uuid, media_name = opt_name opts, media_type = opt_type opts,
       url = Some (opt_url opts), thumbnailUrl = opt_thumbnailUrl opts,
       duration = opt_duration opts, source = Some (opt_source opts),
       folderId = opt_folderId opts, media_projectId = opt_projectId opts \<rparr>"

text \<open>The synchronous part of \<^verbatim>\<open>addMediaFromUrl\<close>: the item is appended and its id returned.\<close>

definition addMediaFromUrl :: "string \<Rightarrow> UrlOptions \<Rightarrow> MediaStore \<Rightarrow> string \<times> MediaStore" where
  "addMediaFromUrl uuid opts s =
     (uuid, s\<lparr>mediaFiles := mediaFiles s @ [newUrlItem uuid opts]\<rparr>)"

text \<open>Whether \<^verbatim>\<open>addMediaFromUrl\<close> starts the background save.\<close>

definition startsBackgroundSave :: "UrlOptions \<Rightarrow> bool" where
  "startsBackgroundSave opts =
     ((opt_type opts = Image \<or> opt_type opts = Video) \<and> opt_url opts \<noteq> []
      \<and> (prefix ''http'' (opt_url opts) \<or> prefix ''data:'' (opt_url opts)))"

text \<open>
  What the background task does to the store when \<^verbatim>\<open>saveImageToLocal\<close> resolves with
  \<open>localPath\<close>: the two \<^verbatim>\<open>set\<close> calls of the task, each guarded as in the source. They run
  on the state current at that moment, whatever happened since the item was added.
\<close>

definition savedUrlStep :: "string \<Rightarrow> string \<Rightarrow> string \<Rightarrow> MediaStore \<Rightarrow> MediaStore" where
  "savedUrlStep ident url0 localPath s =
     (if localPath \<noteq> url0 \<and> prefix ''local-image://'' localPath
      then s\<lparr>mediaFiles :=
               map (\<lambda>f. if media_id f = ident then f\<lparr>url := Some localPath\<rparr> else f)
                 (mediaFiles s)\<rparr>
      else s)"

definition savedThumbnailStep ::
  "string \<Rightarrow> string option \<Rightarrow> string \<Rightarrow> MediaStore \<Rightarrow> MediaStore" where
  "savedThumbnailStep ident thumb0 thumbLocalPath s =
     (if truthyS thumb0 \<and> prefix ''data:'' (orEmpty thumb0)
         \<and> thumbLocalPath \<noteq> orEmpty thumb0 \<and> prefix ''local-image://'' thumbLocalPath
      then s\<lparr>mediaFiles :=
               map (\<lambda>f. if media_id f = ident then f\<lparr>thumbnailUrl := Some thumbLocalPath\<rparr> else f)
                 (mediaFiles s)\<rparr>
      else s)"

text \<open>The store update of \<^verbatim>\<open>removeMediaFile\<close>; the project id only addresses the storage.\<close>

definition removeMediaFile :: "string \<Rightarrow> string \<Rightarrow> MediaStore \<Rightarrow> MediaStore" where
  "removeMediaFile projectId ident s =
     s\<lparr>mediaFiles := filter (\<lambda>media. media_id media \<noteq> ident) (mediaFiles s)\<rparr>"

text \<open>
  \<^verbatim>\<open>loadProjectMedia\<close> has two store phases around its \<^verbatim>\<open>await\<close>: the first \<^verbatim>\<open>set\<close>, and the
  rest once \<^verbatim>\<open>storageService.loadAllMediaFiles\<close> has settled, on the state current then. The
  outcome of the load is \<open>Inr\<close> of the items it resolved with, or \<open>Inl\<close> of the error it
  rejected with.
\<close>

definition loadProjectMedia_begin :: "MediaStore \<Rightarrow> MediaStore" where
  "loadProjectMedia_begin s = s\<lparr>isLoading := True\<rparr>"

definition loadProjectMedia_settle ::
  "string \<Rightarrow> string + MediaFile list \<Rightarrow> MediaStore \<Rightarrow> MediaStore" where
  "loadProjectMedia_settle projectId outcome s =
     (case outcome of
        Inr mediaItems \<Rightarrow>
          s\<lparr>mediaFiles := map (\<lambda>item. item\<lparr>media_projectId := Some projectId\<rparr>) mediaItems\<rparr>
      | Inl err \<Rightarrow> s)\<lparr>isLoading := False\<rparr>"

definition loadProjectMedia ::
  "string \<Rightarrow> string + MediaFile list \<Rightarrow> MediaStore \<Rightarrow> MediaStore" where
  "loadProjectMedia projectId outcome s =
     loadProjectMedia_settle projectId outcome (loadProjectMedia_begin s)"

section \<open>Example stores\<close>

text \<open>The store as \<^verbatim>\<open>create\<close> initialises it, and small folders, items and stores built with
  the constructors above; the closed theorems below are stated on them.\<close>

definition initialStore :: MediaStore where
  "initialStore = \<lparr> folders = [], mediaFiles = [], currentFolderId = None, isLoading = False \<rparr>"

definition ex_folder :: "string \<Rightarrow> string option \<Rightarrow> string option \<Rightarrow> MediaFolder" where
  "ex_folder ident parent pid = newFolder ident 0 ''Clips'' parent pid"

definition ex_opts :: "string option \<Rightarrow> string option \<Rightarrow> UrlOptions" where
  "ex_opts folder pid =
     \<lparr> opt_url = ''https://example.org/a.png'', opt_name = ''a.png'', opt_type = Image,
       opt_source = SrcAiImage, opt_thumbnailUrl = None, opt_duration = None,
       opt_folderId = folder, opt_projectId = pid \<rparr>"

definition ex_item :: "string \<Rightarrow> string option \<Rightarrow> string option \<Rightarrow> MediaFile" where
  "ex_item ident folder pid = newUrlItem ident (ex_opts folder pid)"

text \<open>A catalog with one shared and one project folder, each holding one item.\<close>

definition ex_catalog :: MediaPersistedState where
  "ex_catalog =
     \<lparr> folders = [ex_folder ''f1'' None None, ex_folder ''f2'' None (Some ''p'')],
       mediaFiles = [ex_item ''m1'' (Some ''f1'') None, ex_item ''m2'' (Some ''f2'') (Some ''p'')] \<rparr>"

text \<open>An auto-created folder that has no project yet.\<close>

definition ex_scratch_folder :: MediaFolder where
  "ex_scratch_folder = (ex_folder ''f3'' None None)\<lparr>isAutoCreated := Some True\<rparr>"

definition ex_catalog_scratch :: MediaPersistedState where
  "ex_catalog_scratch = ex_catalog\<lparr>folders := folders ex_catalog @ [ex_scratch_folder]\<rparr>"

text \<open>Folder \<open>a\<close> with child \<open>b\<close>, and a separate root \<open>c\<close>; one item in \<open>b\<close>, one in
  \<open>c\<close>; \<open>b\<close> is the selected folder.\<close>

definition ex_tree :: MediaStore where
  "ex_tree =
     \<lparr> folders = [ex_folder ''a'' None None, ex_folder ''b'' (Some ''a'') None,
                  ex_folder ''c'' None None],
       mediaFiles = [ex_item ''m1'' (Some ''b'') None, ex_item ''m2'' (Some ''c'') None],
       currentFolderId = Some ''b'', isLoading = False \<rparr>"

text \<open>An item and a selection that point to a folder id \<open>x\<close> no folder has.\<close>

definition ex_dangling :: MediaStore where
  "ex_dangling =
     \<lparr> folders = [ex_folder ''c'' None None],
       mediaFiles = [ex_item ''m1'' (Some ''x'') None, ex_item ''m2'' (Some ''c'') None],
       currentFolderId = Some ''x'', isLoading = False \<rparr>"

text \<open>One unscoped and one scoped item, an unscoped folder and a system folder.\<close>

definition ex_unscoped :: MediaStore where
  "ex_unscoped =
     \<lparr> folders = [ex_folder ''f1'' None None, systemFolder ''s1'' 0 name_AI_image ''ai-image''],
       mediaFiles = [ex_item ''m1'' None None, ex_item ''m2'' None (Some ''q'')],
       currentFolderId = None, isLoading = False \<rparr>"

section \<open>System folders cannot be deleted\<close>



section \<open>Assigning a project to unscoped entities\<close>

text \<open>
  Claim C8. \<^verbatim>\<open>assignProjectToUnscoped(p)\<close> keeps both arrays position by position. An item
  with no project id (absent or empty, the source's test \<^verbatim>\<open>media.projectId ? \<dots>\<close>) becomes
  the same item with \<^verbatim>\<open>projectId = p\<close>; an item that has one is unchanged. A folder that is
  not a system folder and has no project id becomes the same folder with
  \<^verbatim>\<open>projectId = p\<close>; a folder that has a project id, and every system folder, is
  unchanged. The selected folder and the loading flag are unchanged.
\<close>

theorem assignProjectToUnscoped_stamps:
  "length (mediaFiles (assignProjectToUnscoped p s)) = length (mediaFiles s)
   \<and> length (folders (assignProjectToUnscoped p s)) = length (folders s)
   \<and> currentFolderId (assignProjectToUnscoped p s) = currentFolderId s
   \<and> isLoading (assignProjectToUnscoped p s) = isLoading s
   \<and> (\<forall>i < length (mediaFiles s).
         (\<not> truthyS (media_projectId (mediaFiles s ! i)) \<longrightarrow>
            mediaFiles (assignProjectToUnscoped p s) ! i
              = (mediaFiles s ! i)\<lparr>media_projectId := Some p\<rparr>)
       \<and> (truthyS (media_projectId (mediaFiles s ! i)) \<longrightarrow>
            mediaFiles (assignProjectToUnscoped p s) ! i = mediaFiles s ! i))
   \<and> (\<forall>i < length (folders s).
         (\<not> truthyS (folder_projectId (folders s ! i)) \<and> \<not> truthyB (isSystem (folders s ! i)) \<longrightarrow>
            folders (assignProjectToUnscoped p s) ! i
              = (folders s ! i)\<lparr>folder_projectId := Some p\<rparr>)
       \<and> (truthyS (folder_projectId (folders s ! i)) \<longrightarrow>
            folders (assignProjectToUnscoped p s) ! i = folders s ! i)
       \<and> (truthyB (isSystem (folders s ! i)) \<longrightarrow>
            folders (assignProjectToUnscoped p s) ! i = folders s ! i))"
  by (simp add: assignProjectToUnscoped_def)

theorem assignProjectToUnscoped_stamps_witness:
  "mediaFiles (assignProjectToUnscoped ''p'' ex_unscoped)
     = [ex_item ''m1'' None (Some ''p''), ex_item ''m2'' None (Some ''q'')]
   \<and> folders (assignProjectToUnscoped ''p'' ex_unscoped)
     = [(ex_folder ''f1'' None None)\<lparr>folder_projectId := Some ''p''\<rparr>,
        systemFolder ''s1'' 0 name_AI_image ''ai-image'']"
proof -
  let ?t = "assignProjectToUnscoped ''p'' ex_unscoped"
  from assignProjectToUnscoped_stamps[of "''p''" ex_unscoped]
  have len: "length (mediaFiles ?t) = length (mediaFiles ex_unscoped)"
         "length (folders ?t) = length (folders ex_unscoped)"
    and ms: "\<forall>i < length (mediaFiles ex_unscoped).
         (\<not> truthyS (media_projectId (mediaFiles ex_unscoped ! i)) \<longrightarrow>
            mediaFiles ?t ! i = (mediaFiles ex_unscoped ! i)\<lparr>media_projectId := Some ''p''\<rparr>)
       \<and> (truthyS (media_projectId (mediaFiles ex_unscoped ! i)) \<longrightarrow>
            mediaFiles ?t ! i = mediaFiles ex_unscoped ! i)"
    and fs: "\<forall>i < length (folders ex_unscoped).
         (\<not> truthyS (folder_projectId (folders ex_unscoped ! i))
            \<and> \<not> truthyB (isSystem (folders ex_unscoped ! i)) \<longrightarrow>
            folders ?t ! i = (folders ex_unscoped ! i)\<lparr>folder_projectId := Some ''p''\<rparr>)
       \<and> (truthyS (folder_projectId (folders ex_unscoped ! i)) \<longrightarrow>
            folders ?t ! i = folders ex_unscoped ! i)
       \<and> (truthyB (isSystem (folders ex_unscoped ! i)) \<longrightarrow>
            folders ?t ! i = folders ex_unscoped ! i)"
    by blast+
  have m0: "mediaFiles ?t ! 0 = ex_item ''m1'' None (Some ''p'')"
    using ms[rule_format, of 0]
    by (simp add: ex_unscoped_def ex_item_def ex_opts_def newUrlItem_def)
  have m1: "mediaFiles ?t ! 1 = ex_item ''m2'' None (Some ''q'')"
    using ms[rule_format, of 1]
    by (simp add: ex_unscoped_def ex_item_def ex_opts_def newUrlItem_def)
  have f0: "folders ?t ! 0 = (ex_folder ''f1'' None None)\<lparr>folder_projectId := Some ''p''\<rparr>"
    using fs[rule_format, of 0]
    by (simp add: ex_unscoped_def ex_folder_def newFolder_def)
  have f1: "folders ?t ! 1 = systemFolder ''s1'' 0 name_AI_image ''ai-image''"
    using fs[rule_format, of 1]
    by (simp add: ex_unscoped_def systemFolder_def)
  have lm: "length (mediaFiles ?t) = 2" and lf: "length (folders ?t) = 2"
    using len by (simp_all add: ex_unscoped_def)
  have "mediaFiles ?t = [mediaFiles ?t ! 0, mediaFiles ?t ! 1]"
    using lm by (intro nth_equalityI) (auto simp add: less_Suc_eq numeral_2_eq_2)
  moreover have "folders ?t = [folders ?t ! 0, folders ?t ! 1]"
    using lf by (intro nth_equalityI) (auto simp add: less_Suc_eq numeral_2_eq_2)
  ultimately show ?thesis using m0 m1 f0 f1 by simp
qed

section \<open>Loading the media of a project\<close>

text \<open>
  Claim C9. \<^verbatim>\<open>loadProjectMedia\<close> first sets \<^verbatim>\<open>isLoading\<close>. Once the storage load has
  settled, \<^verbatim>\<open>isLoading\<close> is false in both outcomes, whatever the store was at that moment:
  when the load resolved, the media files are the loaded items, each stamped with the
  project id; when it rejected, the media files are left as they were. Folders and the
  selected folder are never touched.
\<close>

theorem loadProjectMedia_isLoading:
  "isLoading (loadProjectMedia_begin s)
   \<and> \<not> isLoading (loadProjectMedia_settle p (Inr items) t)
   \<and> mediaFiles (loadProjectMedia_settle p (Inr items) t)
        = map (\<lambda>item. item\<lparr>media_projectId := Some p\<rparr>) items
   \<and> list_all (\<lambda>m. media_projectId m = Some p) (mediaFiles (loadProjectMedia_settle p (Inr items) t))
   \<and> \<not> isLoading (loadProjectMedia_settle p (Inl err) t)
   \<and> mediaFiles (loadProjectMedia_settle p (Inl err) t) = mediaFiles t
   \<and> \<not> isLoading (loadProjectMedia p outcome s)
   \<and> folders (loadProjectMedia p outcome s) = folders s
   \<and> currentFolderId (loadProjectMedia p outcome s) = currentFolderId s"
  by (cases outcome)
     (simp_all add: loadProjectMedia_begin_def loadProjectMedia_settle_def loadProjectMedia_def
        list_all_iff)

theorem loadProjectMedia_isLoading_witness:
  "loadProjectMedia ''p'' (Inr [ex_item ''m9'' None None]) ex_unscoped
     = ex_unscoped\<lparr>mediaFiles := [ex_item ''m9'' None (Some ''p'')]\<rparr>
   \<and> loadProjectMedia ''p'' (Inl ''load failed'') ex_unscoped = ex_unscoped"
proof -
  have a: "isLoading (loadProjectMedia ''p'' (Inr [ex_item ''m9'' None None]) ex_unscoped) = False"
    and b: "isLoading (loadProjectMedia ''p'' (Inl ''load failed'') ex_unscoped) = False"
    using loadProjectMedia_isLoading[of ex_unscoped "''p''" "[]" ex_unscoped "''e''"
             "Inr [ex_item ''m9'' None None]"]
          loadProjectMedia_isLoading[of ex_unscoped "''p''" "[]" ex_unscoped "''e''"
             "Inl ''load failed''"]
    by blast+
  have "loadProjectMedia ''p'' (Inr [ex_item ''m9'' None None]) ex_unscoped
     = ex_unscoped\<lparr>mediaFiles := [ex_item ''m9'' None (Some ''p'')]\<rparr>"
    using a
    by (intro MediaStore.equality)
       (simp_all add: loadProjectMedia_def loadProjectMedia_settle_def loadProjectMedia_begin_def
          ex_unscoped_def ex_item_def ex_opts_def newUrlItem_def)
  moreover have "loadProjectMedia ''p'' (Inl ''load failed'') ex_unscoped = ex_unscoped"
    using b
    by (intro MediaStore.equality)
       (simp_all add: loadProjectMedia_def loadProjectMedia_settle_def loadProjectMedia_begin_def
          ex_unscoped_def)
  ultimately show ?thesis by simp
qed

section \<open>A background save never brings a removed item back\<close>

lemma map_if_absent:
  "x \<notin> media_id ` set xs \<Longrightarrow> map (\<lambda>f. if media_id f = x then g f else f) xs = xs"
  by (induction xs) auto

lemma savedUrlStep_ids:
  "map media_id (mediaFiles (savedUrlStep X u lp t)) = map media_id (mediaFiles t)"
  by (simp add: savedUrlStep_def comp_def)

lemma savedThumbnailStep_ids:
  "map media_id (mediaFiles (savedThumbnailStep X th tlp t)) = map media_id (mediaFiles t)"
  by (simp add: savedThumbnailStep_def comp_def)

lemma savedUrlStep_absent: "X \<notin> media_id ` set (mediaFiles t) \<Longrightarrow> savedUrlStep X u lp t = t"
  by (simp add: savedUrlStep_def map_if_absent)

lemma savedThumbnailStep_absent:
  "X \<notin> media_id ` set (mediaFiles t) \<Longrightarrow> savedThumbnailStep X th tlp t = t"
  by (simp add: savedThumbnailStep_def map_if_absent)

lemma removed_absent: "X \<notin> media_id ` set (mediaFiles (removeMediaFile pid X t))"
  by (auto simp add: removeMediaFile_def)

text \<open>
  Claim C7. The two store updates of the background task of \<^verbatim>\<open>addMediaFromUrl\<close> keep the list
  of media ids of whatever store they run on: they map over the items and never insert.
  On a store that does not hold the id they change nothing. So after
  \<^verbatim>\<open>addMediaFromUrl\<close> has inserted \<open>X\<close> and \<^verbatim>\<open>removeMediaFile\<close> has removed it, the late
  updates leave the store as the removal left it, without \<open>X\<close>.
\<close>

theorem background_save_never_inserts:
  "map media_id (mediaFiles (savedUrlStep X u lp t)) = map media_id (mediaFiles t)
   \<and> map media_id (mediaFiles (savedThumbnailStep X th tlp t)) = map media_id (mediaFiles t)
   \<and> (X \<notin> media_id ` set (mediaFiles t) \<longrightarrow>
         savedUrlStep X u lp t = t \<and> savedThumbnailStep X th tlp t = t)
   \<and> X \<notin> media_id ` set (mediaFiles (removeMediaFile pid X (snd (addMediaFromUrl X opts s))))
   \<and> savedThumbnailStep X th tlp
         (savedUrlStep X u lp (removeMediaFile pid X (snd (addMediaFromUrl X opts s))))
       = removeMediaFile pid X (snd (addMediaFromUrl X opts s))"
  by (simp add: savedUrlStep_ids savedThumbnailStep_ids savedUrlStep_absent
        savedThumbnailStep_absent removed_absent)

theorem background_save_never_inserts_witness:
  "''m1'' \<notin> media_id ` set (mediaFiles initialStore)
   \<and> savedUrlStep ''m1'' ''https://example.org/a.png'' ''local-image://shots/a.png'' initialStore
       = initialStore
   \<and> savedThumbnailStep ''m1'' (Some ''data:image/png;base64,AAAA'') ''local-image://shots/t.png''
         initialStore = initialStore
   \<and> removeMediaFile ''p'' ''m1'' (snd (addMediaFromUrl ''m1'' (ex_opts None None) initialStore))
       = initialStore"
proof -
  have h: "''m1'' \<notin> media_id ` set (mediaFiles initialStore)"
    by (simp add: initialStore_def)
  from background_save_never_inserts[of "''m1''" "''https://example.org/a.png''"
         "''local-image://shots/a.png''" initialStore "Some ''data:image/png;base64,AAAA''"
         "''local-image://shots/t.png''" "''p''" "ex_opts None None" initialStore] h
  have "savedUrlStep ''m1'' ''https://example.org/a.png'' ''local-image://shots/a.png'' initialStore
          = initialStore"
    and "savedThumbnailStep ''m1'' (Some ''data:image/png;base64,AAAA'') ''local-image://shots/t.png''
          initialStore = initialStore"
    by blast+
  moreover have "removeMediaFile ''p'' ''m1'' (snd (addMediaFromUrl ''m1'' (ex_opts None None) initialStore))
       = initialStore"
    by (simp add: removeMediaFile_def addMediaFromUrl_def newUrlItem_def initialStore_def)
  ultimately show ?thesis using h by simp
qed

section \<open>Split and merge\<close>

lemma splitThenMerge_folders:
  "folders (splitThenMerge C pid)
     = filter sharedFolder (folders C) @ filter (projectFolder pid) (folders C)"
  by (simp add: splitThenMerge_def mergeMediaData_def splitMediaData_def)

lemma splitThenMerge_mediaFiles:
  "mediaFiles (splitThenMerge C pid)
     = filter sharedFile (mediaFiles C) @ filter (projectFile pid) (mediaFiles C)"
  by (simp add: splitThenMerge_def mergeMediaData_def splitMediaData_def)

lemma folder_partitions_exclusive: "pid \<noteq> [] \<Longrightarrow> projectFolder pid f \<Longrightarrow> \<not> sharedFolder f"
  by (auto simp add: projectFolder_def sharedFolder_def)

lemma file_partitions_exclusive: "pid \<noteq> [] \<Longrightarrow> projectFile pid f \<Longrightarrow> \<not> sharedFile f"
  by (auto simp add: projectFile_def sharedFile_def)

lemma filter_none: "(\<And>x. x \<in> set xs \<Longrightarrow> \<not> P x) \<Longrightarrow> filter P xs = []"
  by (induction xs) auto

lemma filter_all: "(\<And>x. x \<in> set xs \<Longrightarrow> P x) \<Longrightarrow> filter P xs = xs"
  by (induction xs) auto

lemma splitThenMerge_fixed_point:
  assumes "pid \<noteq> []"
  shows "splitThenMerge (splitThenMerge C pid) pid = splitThenMerge C pid"
proof -
  have a: "filter (\<lambda>x. projectFolder pid x \<and> sharedFolder x) xs = []" for xs
    using assms by (intro filter_none) (auto dest: folder_partitions_exclusive)
  have b: "filter (\<lambda>x. sharedFolder x \<and> projectFolder pid x) xs = []" for xs
    using assms by (intro filter_none) (auto dest: folder_partitions_exclusive)
  have c: "filter (\<lambda>x. projectFile pid x \<and> sharedFile x) xs = []" for xs
    using assms by (intro filter_none) (auto dest: file_partitions_exclusive)
  have d: "filter (\<lambda>x. sharedFile x \<and> projectFile pid x) xs = []" for xs
    using assms by (intro filter_none) (auto dest: file_partitions_exclusive)
  have "folders (splitThenMerge (splitThenMerge C pid) pid) = folders (splitThenMerge C pid)"
    unfolding splitThenMerge_folders[of "splitThenMerge C pid"]
    unfolding splitThenMerge_folders[of C]
    by (simp add: a b)
  moreover have "mediaFiles (splitThenMerge (splitThenMerge C pid) pid)
                   = mediaFiles (splitThenMerge C pid)"
    unfolding splitThenMerge_mediaFiles[of "splitThenMerge C pid"]
    unfolding splitThenMerge_mediaFiles[of C]
    by (simp add: c d)
  ultimately show ?thesis by (intro MediaPersistedState.equality) simp_all
qed

text \<open>
  Claim C1, as the code has it. Merging the two partitions of \<^verbatim>\<open>split(C, p)\<close> gives the
  shared folders and items of \<open>C\<close> followed by those of project \<open>p\<close>, each in the order of
  \<open>C\<close>. Its folder set (item set) equals that of \<open>C\<close> exactly when every folder (item) of
  \<open>C\<close> belongs to one of the two partitions: entities of another project, and auto-created
  folders without a project, are in neither and are dropped. For a non-empty project id the
  result is a fixed point of split-then-merge.
\<close>

theorem splitThenMerge_keeps_partitions:
  "folders (splitThenMerge C pid)
     = filter sharedFolder (folders C) @ filter (projectFolder pid) (folders C)
   \<and> mediaFiles (splitThenMerge C pid)
     = filter sharedFile (mediaFiles C) @ filter (projectFile pid) (mediaFiles C)
   \<and> (set (folders (splitThenMerge C pid)) = set (folders C)
        \<longleftrightarrow> (\<forall>f\<in>set (folders C). sharedFolder f \<or> projectFolder pid f))
   \<and> (set (mediaFiles (splitThenMerge C pid)) = set (mediaFiles C)
        \<longleftrightarrow> (\<forall>m\<in>set (mediaFiles C). sharedFile m \<or> projectFile pid m))
   \<and> (pid \<noteq> [] \<longrightarrow> splitThenMerge (splitThenMerge C pid) pid = splitThenMerge C pid)"
  by (auto simp add: splitThenMerge_folders splitThenMerge_mediaFiles splitThenMerge_fixed_point)

theorem splitThenMerge_keeps_partitions_witness:
  "splitThenMerge ex_catalog ''p'' = ex_catalog
   \<and> set (folders (splitThenMerge ex_catalog ''p'')) = set (folders ex_catalog)
   \<and> set (mediaFiles (splitThenMerge ex_catalog ''p'')) = set (mediaFiles ex_catalog)
   \<and> splitThenMerge (splitThenMerge ex_catalog ''p'') ''p'' = splitThenMerge ex_catalog ''p''"
proof -
  have hf: "\<forall>f\<in>set (folders ex_catalog). sharedFolder f \<or> projectFolder ''p'' f"
    by (simp add: ex_catalog_def ex_folder_def newFolder_def sharedFolder_def projectFolder_def)
  have hm: "\<forall>m\<in>set (mediaFiles ex_catalog). sharedFile m \<or> projectFile ''p'' m"
    by (simp add: ex_catalog_def ex_item_def ex_opts_def newUrlItem_def sharedFile_def
          projectFile_def)
  have hp: "''p'' \<noteq> []" by simp
  from splitThenMerge_keeps_partitions[of ex_catalog "''p''"] hf hm hp
  have "set (folders (splitThenMerge ex_catalog ''p'')) = set (folders ex_catalog)"
    and "set (mediaFiles (splitThenMerge ex_catalog ''p'')) = set (mediaFiles ex_catalog)"
    and "splitThenMerge (splitThenMerge ex_catalog ''p'') ''p'' = splitThenMerge ex_catalog ''p''"
    by blast+
  moreover have "splitThenMerge ex_catalog ''p'' = ex_catalog"
    by (simp add: splitThenMerge_def mergeMediaData_def splitMediaData_def ex_catalog_def
          ex_folder_def newFolder_def ex_item_def ex_opts_def newUrlItem_def sharedFolder_def
          projectFolder_def sharedFile_def projectFile_def)
  ultimately show ?thesis by simp
qed

text \<open>
  Claim C1 as stated fails twice. An item of project \<open>q\<close> is in neither partition of
  \<^verbatim>\<open>split(C, p)\<close>, so the merged item set is not that of \<open>C\<close>. And with the empty string as
  project id, a folder whose project id is the empty string is in both partitions, so each
  round trip doubles it and the result is no fixed point.
\<close>

theorem splitThenMerge_loses_and_doubles:
  "set (mediaFiles (splitThenMerge
          \<lparr> folders = [], mediaFiles = [ex_item ''m1'' None (Some ''q'')] \<rparr> ''p''))
     \<noteq> set (mediaFiles \<lparr> folders = [], mediaFiles = [ex_item ''m1'' None (Some ''q'')] \<rparr>)
   \<and> splitThenMerge (splitThenMerge
          \<lparr> folders = [ex_folder ''f1'' None (Some '''')], mediaFiles = [] \<rparr> '''') ''''
     \<noteq> splitThenMerge \<lparr> folders = [ex_folder ''f1'' None (Some '''')], mediaFiles = [] \<rparr> ''''"
  by (simp add: sharedFile_def projectFile_def sharedFolder_def projectFolder_def ex_item_def
        ex_opts_def ex_folder_def newUrlItem_def newFolder_def splitThenMerge_def
        mergeMediaData_def splitMediaData_def)

text \<open>
  Claim C2, as the code has it. For a non-empty project id no folder and no media item of
  the catalog is in both partitions, and when the ids of the catalog are distinct no id is
  in both. For every project id, a folder that is auto-created, not a system folder and
  without project id is in neither partition.
\<close>

theorem split_disjoint:
  "(pid \<noteq> [] \<longrightarrow>
      set (folders (projectData (splitMediaData C pid)))
        \<inter> set (folders (sharedData (splitMediaData C pid))) = {}
    \<and> set (mediaFiles (projectData (splitMediaData C pid)))
        \<inter> set (mediaFiles (sharedData (splitMediaData C pid))) = {}
    \<and> (distinct (map folder_id (folders C)) \<longrightarrow>
         folder_id ` set (folders (projectData (splitMediaData C pid)))
           \<inter> folder_id ` set (folders (sharedData (splitMediaData C pid))) = {})
    \<and> (distinct (map media_id (mediaFiles C)) \<longrightarrow>
         media_id ` set (mediaFiles (projectData (splitMediaData C pid)))
           \<inter> media_id ` set (mediaFiles (sharedData (splitMediaData C pid))) = {}))
   \<and> (\<forall>f\<in>set (folders C).
         truthyB (isAutoCreated f) \<and> \<not> truthyB (isSystem f) \<and> folder_projectId f = None \<longrightarrow>
           f \<notin> set (folders (projectData (splitMediaData C pid)))
         \<and> f \<notin> set (folders (sharedData (splitMediaData C pid))))"
proof -
  have e1: "folder_id ` set (folders (projectData (splitMediaData C pid)))
           \<inter> folder_id ` set (folders (sharedData (splitMediaData C pid))) = {}"
    if "pid \<noteq> []" "distinct (map folder_id (folders C))"
    using that
    by (auto simp add: splitMediaData_def distinct_map dest!: inj_onD
          dest: folder_partitions_exclusive)
  have e2: "media_id ` set (mediaFiles (projectData (splitMediaData C pid)))
           \<inter> media_id ` set (mediaFiles (sharedData (splitMediaData C pid))) = {}"
    if "pid \<noteq> []" "distinct (map media_id (mediaFiles C))"
    using that
    by (auto simp add: splitMediaData_def distinct_map dest!: inj_onD
          dest: file_partitions_exclusive)
  have e3: "set (folders (projectData (splitMediaData C pid)))
           \<inter> set (folders (sharedData (splitMediaData C pid))) = {}" if "pid \<noteq> []"
    using that by (auto simp add: splitMediaData_def dest: folder_partitions_exclusive)
  have e4: "set (mediaFiles (projectData (splitMediaData C pid)))
           \<inter> set (mediaFiles (sharedData (splitMediaData C pid))) = {}" if "pid \<noteq> []"
    using that by (auto simp add: splitMediaData_def dest: file_partitions_exclusive)
  have e5: "\<forall>f\<in>set (folders C).
         truthyB (isAutoCreated f) \<and> \<not> truthyB (isSystem f) \<and> folder_projectId f = None \<longrightarrow>
           f \<notin> set (folders (projectData (splitMediaData C pid)))
         \<and> f \<notin> set (folders (sharedData (splitMediaData C pid)))"
    by (auto simp add: splitMediaData_def projectFolder_def sharedFolder_def)
  show ?thesis using e1 e2 e3 e4 e5 by blast
qed

theorem split_disjoint_witness:
  "folders (projectData (splitMediaData ex_catalog_scratch ''p'')) = [ex_folder ''f2'' None (Some ''p'')]
   \<and> folders (sharedData (splitMediaData ex_catalog_scratch ''p'')) = [ex_folder ''f1'' None None]
   \<and> set (folders (projectData (splitMediaData ex_catalog_scratch ''p'')))
        \<inter> set (folders (sharedData (splitMediaData ex_catalog_scratch ''p''))) = {}
   \<and> set (mediaFiles (projectData (splitMediaData ex_catalog_scratch ''p'')))
        \<inter> set (mediaFiles (sharedData (splitMediaData ex_catalog_scratch ''p''))) = {}
   \<and> folder_id ` set (folders (projectData (splitMediaData ex_catalog_scratch ''p'')))
        \<inter> folder_id ` set (folders (sharedData (splitMediaData ex_catalog_scratch ''p''))) = {}
   \<and> media_id ` set (mediaFiles (projectData (splitMediaData ex_catalog_scratch ''p'')))
        \<inter> media_id ` set (mediaFiles (sharedData (splitMediaData ex_catalog_scratch ''p''))) = {}
   \<and> ex_scratch_folder \<in> set (folders ex_catalog_scratch)
   \<and> ex_scratch_folder \<notin> set (folders (projectData (splitMediaData ex_catalog_scratch ''p'')))
   \<and> ex_scratch_folder \<notin> set (folders (sharedData (splitMediaData ex_catalog_scratch ''p'')))"
proof -
  have hp: "''p'' \<noteq> []" by simp
  have hf: "distinct (map folder_id (folders ex_catalog_scratch))"
    by (simp add: ex_catalog_scratch_def ex_catalog_def ex_scratch_folder_def ex_folder_def
          newFolder_def)
  have hm: "distinct (map media_id (mediaFiles ex_catalog_scratch))"
    by (simp add: ex_catalog_scratch_def ex_catalog_def ex_item_def newUrlItem_def)
  have hs: "ex_scratch_folder \<in> set (folders ex_catalog_scratch)"
    by (simp add: ex_catalog_scratch_def)
  have hs': "truthyB (isAutoCreated ex_scratch_folder) \<and> \<not> truthyB (isSystem ex_scratch_folder)
             \<and> folder_projectId ex_scratch_folder = None"
    by (simp add: ex_scratch_folder_def ex_folder_def newFolder_def)
  from split_disjoint[of "''p''" ex_catalog_scratch] hp hf hm hs hs'
  have "set (folders (projectData (splitMediaData ex_catalog_scratch ''p'')))
        \<inter> set (folders (sharedData (splitMediaData ex_catalog_scratch ''p''))) = {}"
    and "set (mediaFiles (projectData (splitMediaData ex_catalog_scratch ''p'')))
        \<inter> set (mediaFiles (sharedData (splitMediaData ex_catalog_scratch ''p''))) = {}"
    and "folder_id ` set (folders (projectData (splitMediaData ex_catalog_scratch ''p'')))
        \<inter> folder_id ` set (folders (sharedData (splitMediaData ex_catalog_scratch ''p''))) = {}"
    and "media_id ` set (mediaFiles (projectData (splitMediaData ex_catalog_scratch ''p'')))
        \<inter> media_id ` set (mediaFiles (sharedData (splitMediaData ex_catalog_scratch ''p''))) = {}"
    and "ex_scratch_folder \<notin> set (folders (projectData (splitMediaData ex_catalog_scratch ''p'')))"
    and "ex_scratch_folder \<notin> set (folders (sharedData (splitMediaData ex_catalog_scratch ''p'')))"
    by blast+
  moreover have "folders (projectData (splitMediaData ex_catalog_scratch ''p''))
                   = [ex_folder ''f2'' None (Some ''p'')]"
    and "folders (sharedData (splitMediaData ex_catalog_scratch ''p'')) = [ex_folder ''f1'' None None]"
    by (simp_all add: splitMediaData_def ex_catalog_scratch_def ex_catalog_def
          ex_scratch_folder_def ex_folder_def newFolder_def projectFolder_def sharedFolder_def)
  ultimately show ?thesis using hs by blast
qed

text \<open>
  Claim C2 as stated fails for the empty project id: a folder whose project id is the empty
  string matches \<^verbatim>\<open>f.projectId === pid\<close> and, the empty string being falsy, also
  \<^verbatim>\<open>!f.projectId\<close>, so it is in both partitions. And the partitions share an id when the
  catalog holds two folders with one id, one of the project and one shared.
\<close>

theorem split_overlaps:
  "ex_folder ''f1'' None (Some '''')
     \<in> set (folders (projectData (splitMediaData
              \<lparr> folders = [ex_folder ''f1'' None (Some '''')], mediaFiles = [] \<rparr> '''')))
   \<and> ex_folder ''f1'' None (Some '''')
     \<in> set (folders (sharedData (splitMediaData
              \<lparr> folders = [ex_folder ''f1'' None (Some '''')], mediaFiles = [] \<rparr> '''')))
   \<and> ''f1'' \<in> folder_id ` set (folders (projectData (splitMediaData
              \<lparr> folders = [ex_folder ''f1'' None None, ex_folder ''f1'' None (Some ''p'')],
                mediaFiles = [] \<rparr> ''p'')))
   \<and> ''f1'' \<in> folder_id ` set (folders (sharedData (splitMediaData
              \<lparr> folders = [ex_folder ''f1'' None None, ex_folder ''f1'' None (Some ''p'')],
                mediaFiles = [] \<rparr> ''p'')))"
  by (simp add: splitMediaData_def projectFolder_def sharedFolder_def ex_folder_def newFolder_def)

section \<open>Deleting a folder\<close>

subsection \<open>The descendant ids\<close>

lemma those_eq_Some: "those xs = Some ys \<longleftrightarrow> xs = map Some ys"
  by (induction xs arbitrary: ys) (auto split: option.splits)

lemma those_None: "None \<in> set xs \<Longrightarrow> those xs = None"
  by (induction xs) (auto split: option.splits)

lemma childLinks_iff:
  "(p, c) \<in> childLinks fs \<longleftrightarrow> (\<exists>f\<in>set fs. parentId f = Some p \<and> folder_id f = c)"
  by (induction fs) (auto simp add: childLinks_def split: option.splits)

lemma finite_childLinks: "finite (childLinks fs)"
  unfolding childLinks_def by (rule finite_set)

lemma subtreeIds_unfold:
  "subtreeIds fs x
     = insert x (\<Union>c\<in>set (filter (\<lambda>f. parentId f = Some x) fs). subtreeIds fs (folder_id c))"
proof (intro set_eqI iffI)
  fix y assume "y \<in> subtreeIds fs x"
  then have "(x, y) \<in> (childLinks fs)\<^sup>*" by (simp add: subtreeIds_def)
  then show "y \<in> insert x
      (\<Union>c\<in>set (filter (\<lambda>f. parentId f = Some x) fs). subtreeIds fs (folder_id c))"
  proof (cases rule: converse_rtranclE)
    case base
    then show ?thesis by simp
  next
    case (step z)
    from step(1) obtain f where "f \<in> set fs" "parentId f = Some x" "folder_id f = z"
      by (auto simp add: childLinks_iff)
    with step(2) show ?thesis by (auto simp add: subtreeIds_def)
  qed
next
  fix y assume "y \<in> insert x
      (\<Union>c\<in>set (filter (\<lambda>f. parentId f = Some x) fs). subtreeIds fs (folder_id c))"
  then consider "y = x"
    | c where "c \<in> set fs" "parentId c = Some x" "(folder_id c, y) \<in> (childLinks fs)\<^sup>*"
    by (auto simp add: subtreeIds_def)
  then show "y \<in> subtreeIds fs x"
  proof cases
    case 1
    then show ?thesis by (simp add: subtreeIds_def)
  next
    case 2
    from 2(1,2) have "(x, folder_id c) \<in> childLinks fs" by (auto simp add: childLinks_iff)
    with 2(3) show ?thesis
      by (auto simp add: subtreeIds_def intro: converse_rtrancl_into_rtrancl)
  qed
qed

lemma Union_of_results:
  "map g cs = map Some ds \<Longrightarrow> (\<And>c d. c \<in> set cs \<Longrightarrow> g c = Some d \<Longrightarrow> set d = S c)
     \<Longrightarrow> (\<Union>d\<in>set ds. set d) = (\<Union>c\<in>set cs. S c)"
proof (induction cs arbitrary: ds)
  case Nil
  then show ?case by simp
next
  case (Cons c cs)
  from Cons.prems(1) obtain d ds' where
    ds: "ds = d # ds'" "g c = Some d" "map g cs = map Some ds'"
    by (cases ds) auto
  from ds(2) have "set d = S c" by (simp add: Cons.prems(2))
  moreover from ds(3) have "(\<Union>d\<in>set ds'. set d) = (\<Union>c\<in>set cs. S c)"
    by (rule Cons.IH) (simp add: Cons.prems(2))
  ultimately show ?case by (simp add: ds(1))
qed

lemma getDescendantIds_Suc_Some:
  "getDescendantIds (Suc n) fs x = Some ids \<longleftrightarrow>
     (\<exists>ds. map (\<lambda>c. getDescendantIds n fs (folder_id c)) (filter (\<lambda>f. parentId f = Some x) fs)
             = map Some ds
           \<and> ids = x # concat ds)"
  by (auto simp add: those_eq_Some)

text \<open>When the recursion returns, it returns the ids reachable along parent links.\<close>

lemma getDescendantIds_sound:
  "getDescendantIds n fs x = Some ids \<Longrightarrow> set ids = subtreeIds fs x"
proof (induction n arbitrary: x ids)
  case 0
  then show ?case by simp
next
  case (Suc n)
  let ?cs = "filter (\<lambda>f. parentId f = Some x) fs"
  from Suc.prems obtain ds where
    ds: "map (\<lambda>c. getDescendantIds n fs (folder_id c)) ?cs = map Some ds"
    and ids: "ids = x # concat ds"
    unfolding getDescendantIds_Suc_Some by blast
  have "(\<Union>d\<in>set ds. set d) = (\<Union>c\<in>set ?cs. subtreeIds fs (folder_id c))"
    using ds by (rule Union_of_results) (rule Suc.IH)
  then have "set ids = insert x (\<Union>c\<in>set ?cs. subtreeIds fs (folder_id c))"
    by (simp add: ids)
  then show ?case by (simp only: subtreeIds_unfold[of fs x])
qed

text \<open>A deeper stack does not change a result.\<close>

lemma getDescendantIds_Suc_mono:
  "getDescendantIds n fs x = Some ids \<Longrightarrow> getDescendantIds (Suc n) fs x = Some ids"
proof (induction n arbitrary: x ids)
  case 0
  then show ?case by simp
next
  case (Suc n)
  let ?cs = "filter (\<lambda>f. parentId f = Some x) fs"
  from Suc.prems obtain ds where
    ds: "map (\<lambda>c. getDescendantIds n fs (folder_id c)) ?cs = map Some ds"
    and ids: "ids = x # concat ds"
    unfolding getDescendantIds_Suc_Some by blast
  from ds have len: "length ds = length ?cs" by (metis length_map)
  have "map (\<lambda>c. getDescendantIds (Suc n) fs (folder_id c)) ?cs = map Some ds"
  proof (rule nth_equalityI)
    show "length (map (\<lambda>c. getDescendantIds (Suc n) fs (folder_id c)) ?cs) = length (map Some ds)"
      by (simp add: len)
  next
    fix i assume "i < length (map (\<lambda>c. getDescendantIds (Suc n) fs (folder_id c)) ?cs)"
    then have i: "i < length ?cs" by simp
    with ds have "getDescendantIds n fs (folder_id (?cs ! i)) = Some (ds ! i)"
      by (metis len nth_map)
    then have "getDescendantIds (Suc n) fs (folder_id (?cs ! i)) = Some (ds ! i)"
      by (rule Suc.IH)
    with i show "map (\<lambda>c. getDescendantIds (Suc n) fs (folder_id c)) ?cs ! i = map Some ds ! i"
      by (simp add: len)
  qed
  with ids show ?case
    unfolding getDescendantIds_Suc_Some[of "Suc n"] by blast
qed

lemma getDescendantIds_mono:
  "getDescendantIds n fs x = Some ids \<Longrightarrow> n \<le> m \<Longrightarrow> getDescendantIds m fs x = Some ids"
  by (induction m)
     (auto simp add: le_Suc_eq getDescendantIds_Suc_mono simp del: getDescendantIds.simps)

lemma children_common_depth:
  "(\<And>c. c \<in> set cs \<Longrightarrow> \<exists>n ids. getDescendantIds n fs (folder_id c) = Some ids)
     \<Longrightarrow> \<exists>N ds. map (\<lambda>c. getDescendantIds N fs (folder_id c)) cs = map Some ds"
proof (induction cs)
  case Nil
  then show ?case by simp
next
  case (Cons c cs)
  from Cons.prems obtain n ids where c: "getDescendantIds n fs (folder_id c) = Some ids"
    by (meson list.set_intros(1))
  from Cons obtain N ds where
    cs: "map (\<lambda>c. getDescendantIds N fs (folder_id c)) cs = map Some ds"
    by (meson list.set_intros(2))
  let ?M = "max n N"
  have "getDescendantIds ?M fs (folder_id c) = Some ids"
    using c by (rule getDescendantIds_mono) simp
  moreover have "map (\<lambda>c. getDescendantIds ?M fs (folder_id c)) cs = map Some ds"
  proof (rule nth_equalityI)
    show "length (map (\<lambda>c. getDescendantIds ?M fs (folder_id c)) cs) = length (map Some ds)"
      using cs by (metis length_map)
  next
    fix i assume "i < length (map (\<lambda>c. getDescendantIds ?M fs (folder_id c)) cs)"
    then have i: "i < length cs" by simp
    have l: "length ds = length cs" using cs by (metis length_map)
    from cs i l have "getDescendantIds N fs (folder_id (cs ! i)) = Some (ds ! i)"
      by (metis nth_map)
    then have "getDescendantIds ?M fs (folder_id (cs ! i)) = Some (ds ! i)"
      by (rule getDescendantIds_mono) simp
    with i l show "map (\<lambda>c. getDescendantIds ?M fs (folder_id c)) cs ! i = map Some ds ! i"
      by simp
  qed
  ultimately have
    "map (\<lambda>c. getDescendantIds ?M fs (folder_id c)) (c # cs) = map Some (ids # ds)"
    by simp
  then show ?case by blast
qed

text \<open>Without a cycle of parent links the recursion returns, at some depth.\<close>

lemma getDescendantIds_returns:
  assumes "acyclic (childLinks fs)"
  shows "\<exists>n ids. getDescendantIds n fs x = Some ids"
proof -
  have "wf ((childLinks fs)\<inverse>)"
    using finite_childLinks assms by (rule finite_acyclic_wf_converse)
  then show ?thesis
  proof (induction x rule: wf_induct_rule)
    case (less x)
    let ?cs = "filter (\<lambda>f. parentId f = Some x) fs"
    have "\<exists>n ids. getDescendantIds n fs (folder_id c) = Some ids" if "c \<in> set ?cs" for c
    proof -
      from that have "(x, folder_id c) \<in> childLinks fs" by (auto simp add: childLinks_iff)
      then show ?thesis using less by simp
    qed
    then obtain N ds where
      "map (\<lambda>c. getDescendantIds N fs (folder_id c)) ?cs = map Some ds"
      using children_common_depth[of ?cs fs] by blast
    then have "getDescendantIds (Suc N) fs x = Some (x # concat ds)"
      unfolding getDescendantIds_Suc_Some by blast
    then show ?case by blast
  qed
qed

text \<open>On a folder that is its own parent the recursion never returns.\<close>

lemma self_parent_never_returns:
  "parentId f = Some (folder_id f) \<Longrightarrow> f \<in> set fs \<Longrightarrow> getDescendantIds n fs (folder_id f) = None"
proof (induction n)
  case 0
  then show ?case by simp
next
  case (Suc n)
  then have "None \<in> set (map (\<lambda>c. getDescendantIds n fs (folder_id c))
                            (filter (\<lambda>g. parentId g = Some (folder_id f)) fs))"
    by (auto simp add: image_iff)
  then have "those (map (\<lambda>c. getDescendantIds n fs (folder_id c))
                      (filter (\<lambda>g. parentId g = Some (folder_id f)) fs)) = None"
    by (rule those_None)
  then show ?case by simp
qed

subsection \<open>The store after the deletion\<close>

lemma folderId_None_upd: "folderId m = None \<Longrightarrow> m\<lparr>folderId := None\<rparr> = m"
  by (cases m) simp

lemma reparent_eq:
  "(if orEmpty (folderId m) \<in> D then m\<lparr>folderId := None\<rparr> else m)
     = (if folderId m \<in> Some ` D then m\<lparr>folderId := None\<rparr> else m)"
  by (cases "folderId m") (auto simp add: folderId_None_upd)

lemma current_eq:
  "(if orEmpty c \<in> D then None else c) = (if c \<in> Some ` D then None else c)"
  by (cases c) auto

lemma deleteFolder_result:
  assumes "\<not> targetIsSystem (folders s) x" and "getDescendantIds n (folders s) x = Some ids"
  shows "deleteFolder n x s =
     Some (s\<lparr> folders := filter (\<lambda>f. folder_id f \<notin> subtreeIds (folders s) x) (folders s),
              mediaFiles := map (\<lambda>m. if folderId m \<in> Some ` subtreeIds (folders s) x
                                      then m\<lparr>folderId := None\<rparr> else m) (mediaFiles s),
              currentFolderId := (if currentFolderId s \<in> Some ` subtreeIds (folders s) x
                                  then None else currentFolderId s) \<rparr>)"
proof -
  have "set ids = subtreeIds (folders s) x"
    using assms(2) by (rule getDescendantIds_sound)
  then show ?thesis
    using assms by (simp add: deleteFolder_def reparent_eq current_eq)
qed

text \<open>With unique folder ids, an id resolves to the folder that carries it.\<close>

lemma find_unique_id:
  "distinct (map folder_id fs) \<Longrightarrow> F \<in> set fs
     \<Longrightarrow> find (\<lambda>f. folder_id f = folder_id F) fs = Some F"
  by (induction fs) (auto simp add: rev_image_eqI)

lemma no_children_ids:
  assumes "\<forall>f\<in>set fs. parentId f \<noteq> Some x"
  shows "getDescendantIds (Suc n) fs x = Some [x]"
proof -
  from assms have "filter (\<lambda>f. parentId f = Some x) fs = []" by (simp add: filter_empty_conv)
  then show ?thesis by simp
qed

lemma unknown_id_not_system:
  assumes "x \<notin> folder_id ` set fs"
  shows "\<not> targetIsSystem fs x"
proof -
  from assms have "find (\<lambda>f. folder_id f = x) fs = None" by (auto simp add: find_None_iff)
  then show ?thesis by (simp add: targetIsSystem_def)
qed

lemma map_changes: "m \<in> set xs \<Longrightarrow> g m \<noteq> m \<Longrightarrow> map g xs \<noteq> xs"
  by (induction xs) auto

text \<open>
  Claim C3, as the code has it. Let the parent links of the store have no cycle, and let
  \<open>F\<close> be a folder that is not a system folder and that its id resolves to (for unique
  ids: any folder of the store). Then \<^verbatim>\<open>deleteFolder(F.id)\<close> returns, at every call depth from
  some bound on, and the new store has: the folders whose id is not reachable from \<open>F.id\<close>
  along parent links, in their order; every media item whose \<^verbatim>\<open>folderId\<close> was a reachable
  id with \<^verbatim>\<open>folderId = null\<close>, every other item as it was; the selected folder reset when it
  was a reachable id; the loading flag as it was.
\<close>

theorem deleteFolder_removes_subtree:
  assumes "acyclic (childLinks (folders s))"
      and "find (\<lambda>f. folder_id f = folder_id F) (folders s) = Some F"
      and "isSystem F \<noteq> Some True"
  shows "\<exists>n0. \<forall>depth\<ge>n0. deleteFolder depth (folder_id F) s =
     Some (s\<lparr> folders :=
                filter (\<lambda>f. folder_id f \<notin> subtreeIds (folders s) (folder_id F)) (folders s),
              mediaFiles :=
                map (\<lambda>m. if folderId m \<in> Some ` subtreeIds (folders s) (folder_id F)
                          then m\<lparr>folderId := None\<rparr> else m) (mediaFiles s),
              currentFolderId :=
                (if currentFolderId s \<in> Some ` subtreeIds (folders s) (folder_id F)
                 then None else currentFolderId s) \<rparr>)"
proof -
  from assms(2,3) have sys: "\<not> targetIsSystem (folders s) (folder_id F)"
    by (cases "isSystem F") (auto simp add: targetIsSystem_def)
  from assms(1) obtain n0 ids where
    n0: "getDescendantIds n0 (folders s) (folder_id F) = Some ids"
    using getDescendantIds_returns by blast
  have "deleteFolder depth (folder_id F) s =
     Some (s\<lparr> folders :=
                filter (\<lambda>f. folder_id f \<notin> subtreeIds (folders s) (folder_id F)) (folders s),
              mediaFiles :=
                map (\<lambda>m. if folderId m \<in> Some ` subtreeIds (folders s) (folder_id F)
                          then m\<lparr>folderId := None\<rparr> else m) (mediaFiles s),
              currentFolderId :=
                (if currentFolderId s \<in> Some ` subtreeIds (folders s) (folder_id F)
                 then None else currentFolderId s) \<rparr>)" if "n0 \<le> depth" for depth
    using sys getDescendantIds_mono[OF n0 that] by (rule deleteFolder_result)
  then show ?thesis by blast
qed

theorem deleteFolder_removes_subtree_witness:
  "acyclic (childLinks (folders ex_tree))
   \<and> find (\<lambda>f. folder_id f = folder_id (ex_folder ''a'' None None)) (folders ex_tree)
       = Some (ex_folder ''a'' None None)
   \<and> isSystem (ex_folder ''a'' None None) \<noteq> Some True
   \<and> (\<exists>n0. \<forall>depth\<ge>n0. deleteFolder depth ''a'' ex_tree =
         Some \<lparr> folders = [ex_folder ''c'' None None],
                mediaFiles = [ex_item ''m1'' None None, ex_item ''m2'' (Some ''c'') None],
                currentFolderId = None, isLoading = False \<rparr>)"
proof -
  have "acyclic ({} :: (string \<times> string) set)"
    by (simp add: acyclic_def)
  then have h1: "acyclic (childLinks (folders ex_tree))"
    by (simp add: childLinks_def ex_tree_def ex_folder_def newFolder_def)
  have h2: "find (\<lambda>f. folder_id f = folder_id (ex_folder ''a'' None None)) (folders ex_tree)
              = Some (ex_folder ''a'' None None)"
    by (simp add: ex_tree_def ex_folder_def newFolder_def)
  have h3: "isSystem (ex_folder ''a'' None None) \<noteq> Some True"
    by (simp add: ex_folder_def newFolder_def)
  have "getDescendantIds (Suc (Suc 0)) (folders ex_tree) ''a'' = Some [''a'', ''b'']"
    by (simp add: ex_tree_def ex_folder_def newFolder_def)
  then have "set [''a'', ''b''] = subtreeIds (folders ex_tree) ''a''"
    by (rule getDescendantIds_sound)
  then have sub: "subtreeIds (folders ex_tree) ''a'' = {''a'', ''b''}" by simp
  have ida: "folder_id (ex_folder ''a'' None None) = ''a''"
    by (simp add: ex_folder_def newFolder_def)
  have res: "ex_tree\<lparr> folders := filter (\<lambda>f. folder_id f \<notin> {''a'', ''b''}) (folders ex_tree),
              mediaFiles := map (\<lambda>m. if folderId m \<in> Some ` {''a'', ''b''}
                                      then m\<lparr>folderId := None\<rparr> else m) (mediaFiles ex_tree),
              currentFolderId := (if currentFolderId ex_tree \<in> Some ` {''a'', ''b''}
                                  then None else currentFolderId ex_tree) \<rparr>
           = \<lparr> folders = [ex_folder ''c'' None None],
                mediaFiles = [ex_item ''m1'' None None, ex_item ''m2'' (Some ''c'') None],
                currentFolderId = None, isLoading = False \<rparr>"
    by (simp add: ex_tree_def ex_folder_def newFolder_def ex_item_def ex_opts_def newUrlItem_def)
  from deleteFolder_removes_subtree[OF h1 h2 h3]
  have "\<exists>n0. \<forall>depth\<ge>n0. deleteFolder depth ''a'' ex_tree =
         Some \<lparr> folders = [ex_folder ''c'' None None],
                mediaFiles = [ex_item ''m1'' None None, ex_item ''m2'' (Some ''c'') None],
                currentFolderId = None, isLoading = False \<rparr>"
    unfolding ida sub res .
  with h1 h2 h3 show ?thesis by blast
qed

text \<open>
  Claim C3 as stated fails on two stores. A folder that is its own parent sends the
  recursion of \<^verbatim>\<open>getDescendantIds\<close> round for ever: at no call depth does \<^verbatim>\<open>deleteFolder\<close>
  return, and nothing is removed. And when a system folder with the same id stands before a
  plain folder, \<^verbatim>\<open>folders.find\<close> resolves the id to the system folder and the call is a
  no-op, although the plain folder is present and not a system folder.
\<close>

theorem deleteFolder_cycle_or_shadowed:
  "(\<forall>depth. deleteFolder depth ''a'' (initialStore\<lparr>folders := [ex_folder ''a'' (Some ''a'') None]\<rparr>)
      = None)
   \<and> (\<forall>depth. deleteFolder depth ''a''
         (initialStore\<lparr>folders := [systemFolder ''a'' 0 name_AI_image ''ai-image'',
                                    ex_folder ''a'' None None]\<rparr>)
       = Some (initialStore\<lparr>folders := [systemFolder ''a'' 0 name_AI_image ''ai-image'',
                                          ex_folder ''a'' None None]\<rparr>))"
proof -
  have "getDescendantIds depth [ex_folder ''a'' (Some ''a'') None] ''a'' = None" for depth
    using self_parent_never_returns[of "ex_folder ''a'' (Some ''a'') None"
            "[ex_folder ''a'' (Some ''a'') None]" depth]
    by (simp add: ex_folder_def newFolder_def)
  then show ?thesis
    by (simp add: deleteFolder_def targetIsSystem_def ex_folder_def newFolder_def
          systemFolder_def initialStore_def)
qed

text \<open>
  Claim C10, as the code has it. Let \<open>x\<close> be the id of no folder and the \<^verbatim>\<open>parentId\<close> of no
  folder. Then \<^verbatim>\<open>deleteFolder(x)\<close> returns (one call frame is enough), the folders and the
  loading flag are unchanged, every media item whose \<^verbatim>\<open>folderId\<close> is \<open>x\<close> gets
  \<^verbatim>\<open>folderId = null\<close> and every other item is as it was, and the selected folder is reset
  when it was \<open>x\<close>. When some item points to \<open>x\<close> the call is not a no-op.
\<close>

theorem deleteFolder_unknown_id:
  assumes "x \<notin> folder_id ` set (folders s)"
      and "\<forall>f\<in>set (folders s). parentId f \<noteq> Some x"
  shows "(\<forall>depth>0. deleteFolder depth x s =
           Some (s\<lparr> mediaFiles :=
                      map (\<lambda>m. if folderId m = Some x then m\<lparr>folderId := None\<rparr> else m)
                        (mediaFiles s),
                    currentFolderId :=
                      (if currentFolderId s = Some x then None else currentFolderId s) \<rparr>))
       \<and> ((\<exists>m\<in>set (mediaFiles s). folderId m = Some x)
            \<longrightarrow> (\<forall>depth. deleteFolder depth x s \<noteq> Some s))"
proof -
  let ?s' = "s\<lparr> mediaFiles :=
                  map (\<lambda>m. if folderId m = Some x then m\<lparr>folderId := None\<rparr> else m)
                    (mediaFiles s),
                currentFolderId :=
                  (if currentFolderId s = Some x then None else currentFolderId s) \<rparr>"
  have keep: "filter (\<lambda>f. folder_id f \<noteq> x) (folders s) = folders s"
    using assms(1) by (intro filter_all) auto
  have r: "(if orEmpty (folderId m) = x then m\<lparr>folderId := None\<rparr> else m)
         = (if folderId m = Some x then m\<lparr>folderId := None\<rparr> else m)" for m :: MediaFile
    using reparent_eq[of m "{x}"] by auto
  have c: "(if orEmpty (currentFolderId s) = x then None else currentFolderId s)
         = (if currentFolderId s = Some x then None else currentFolderId s)"
    using current_eq[of "currentFolderId s" "{x}"] by auto
  have step: "deleteFolder (Suc n) x s = Some ?s'" for n
    using unknown_id_not_system[OF assms(1)] no_children_ids[OF assms(2), of n]
    by (simp add: deleteFolder_def keep r c del: getDescendantIds.simps)
  have first: "\<forall>depth>0. deleteFolder depth x s = Some ?s'"
  proof (intro allI impI)
    fix depth :: nat assume "0 < depth"
    then obtain n where "depth = Suc n" by (cases depth) auto
    then show "deleteFolder depth x s = Some ?s'" using step by simp
  qed
  have second: "deleteFolder depth x s \<noteq> Some s"
    if ex: "\<exists>m\<in>set (mediaFiles s). folderId m = Some x" for depth
  proof (cases depth)
    case 0
    then show ?thesis using unknown_id_not_system[OF assms(1)] by (simp add: deleteFolder_def)
  next
    case (Suc n)
    from ex obtain m where m: "m \<in> set (mediaFiles s)" "folderId m = Some x" by blast
    have "m\<lparr>folderId := None\<rparr> \<noteq> m"
    proof
      assume "m\<lparr>folderId := None\<rparr> = m"
      then have "folderId (m\<lparr>folderId := None\<rparr>) = folderId m" by (rule arg_cong)
      then show False using m(2) by simp
    qed
    with m(2) have "(if folderId m = Some x then m\<lparr>folderId := None\<rparr> else m) \<noteq> m"
      by simp
    with m(1) have "map (\<lambda>m. if folderId m = Some x then m\<lparr>folderId := None\<rparr> else m)
                      (mediaFiles s) \<noteq> mediaFiles s"
      by (rule map_changes)
    then have "mediaFiles ?s' \<noteq> mediaFiles s" by simp
    then have "?s' \<noteq> s" by (rule contrapos_nn) (rule arg_cong)
    then show ?thesis using step[of n] Suc by simp
  qed
  show ?thesis using first second by blast
qed

theorem deleteFolder_unknown_id_witness:
  "''x'' \<notin> folder_id ` set (folders ex_dangling)
   \<and> deleteFolder 1 ''x'' ex_dangling =
       Some \<lparr> folders = [ex_folder ''c'' None None],
              mediaFiles = [ex_item ''m1'' None None, ex_item ''m2'' (Some ''c'') None],
              currentFolderId = None, isLoading = False \<rparr>
   \<and> deleteFolder 1 ''x'' ex_dangling \<noteq> Some ex_dangling"
proof -
  have h1: "''x'' \<notin> folder_id ` set (folders ex_dangling)"
    by (simp add: ex_dangling_def ex_folder_def newFolder_def)
  have h2: "\<forall>f\<in>set (folders ex_dangling). parentId f \<noteq> Some ''x''"
    by (simp add: ex_dangling_def ex_folder_def newFolder_def)
  have h3: "\<exists>m\<in>set (mediaFiles ex_dangling). folderId m = Some ''x''"
    by (simp add: ex_dangling_def ex_item_def ex_opts_def newUrlItem_def)
  have res: "ex_dangling\<lparr> mediaFiles :=
                      map (\<lambda>m. if folderId m = Some ''x'' then m\<lparr>folderId := None\<rparr> else m)
                        (mediaFiles ex_dangling),
                    currentFolderId :=
                      (if currentFolderId ex_dangling = Some ''x'' then None
                       else currentFolderId ex_dangling) \<rparr>
       = \<lparr> folders = [ex_folder ''c'' None None],
              mediaFiles = [ex_item ''m1'' None None, ex_item ''m2'' (Some ''c'') None],
              currentFolderId = None, isLoading = False \<rparr>"
    by (simp add: ex_dangling_def ex_item_def ex_opts_def newUrlItem_def)
  note inst = deleteFolder_unknown_id[OF h1 h2]
  from inst have a: "\<forall>depth>0. deleteFolder depth ''x'' ex_dangling =
           Some (ex_dangling\<lparr> mediaFiles :=
                      map (\<lambda>m. if folderId m = Some ''x'' then m\<lparr>folderId := None\<rparr> else m)
                        (mediaFiles ex_dangling),
                    currentFolderId :=
                      (if currentFolderId ex_dangling = Some ''x'' then None
                       else currentFolderId ex_dangling) \<rparr>)"
    by (rule conjunct1)
  from inst have b: "(\<exists>m\<in>set (mediaFiles ex_dangling). folderId m = Some ''x'')
            \<longrightarrow> (\<forall>depth. deleteFolder depth ''x'' ex_dangling \<noteq> Some ex_dangling)"
    by (rule conjunct2)
  have "deleteFolder 1 ''x'' ex_dangling =
       Some \<lparr> folders = [ex_folder ''c'' None None],
              mediaFiles = [ex_item ''m1'' None None, ex_item ''m2'' (Some ''c'') None],
              currentFolderId = None, isLoading = False \<rparr>"
    using a[rule_format, of 1] unfolding res by simp
  moreover have "deleteFolder 1 ''x'' ex_dangling \<noteq> Some ex_dangling"
    using b h3 by blast
  ultimately show ?thesis using h1 by blast
qed

text \<open>
  Claim C10 as stated fails when a folder names the unknown id as its parent: the folder is
  a child of that id for \<^verbatim>\<open>getDescendantIds\<close>, and \<^verbatim>\<open>deleteFolder\<close> removes it (with two call
  frames or more; with fewer the recursion cannot finish).
\<close>

theorem deleteFolder_unknown_id_removes_children:
  "''x'' \<notin> folder_id ` set (folders (initialStore\<lparr>folders := [ex_folder ''b'' (Some ''x'') None]\<rparr>))
   \<and> (\<forall>depth. deleteFolder (Suc (Suc depth)) ''x''
                 (initialStore\<lparr>folders := [ex_folder ''b'' (Some ''x'') None]\<rparr>)
        = Some (initialStore\<lparr>folders := []\<rparr>))"
  by (simp add: deleteFolder_def targetIsSystem_def ex_folder_def newFolder_def initialStore_def)

section \<open>Initialising the system folders\<close>

lemma initLoop_acc:
  "initLoop uuid now fs cs k acc = acc @ initLoop uuid now fs cs k []"
proof (induction cs arbitrary: k acc)
  case Nil
  then show ?case by simp
next
  case (Cons c cs)
  show ?case
    using Cons.IH[of "Suc k" "acc @ [systemFolder (uuid k) (now k) (cat_name c) (cat_category c)]"]
      Cons.IH[of "Suc k" "[systemFolder (uuid k) (now k) (cat_name c) (cat_category c)]"]
      Cons.IH[of k acc]
    by simp
qed

lemma initLoop_Cons:
  "initLoop uuid now fs (c # cs) k [] =
     (if find (isSystemOf (cat_category c)) fs = None
      then systemFolder (uuid k) (now k) (cat_name c) (cat_category c)
             # initLoop uuid now fs cs (Suc k) []
      else initLoop uuid now fs cs k [])"
  using initLoop_acc[of uuid now fs cs "Suc k"
          "[systemFolder (uuid k) (now k) (cat_name c) (cat_category c)]"]
  by simp

lemma isSystemOf_systemFolder: "isSystemOf c (systemFolder u n nm c') \<longleftrightarrow> c = c'"
  by (auto simp add: isSystemOf_def systemFolder_def)

lemma category_systemFolder: "category (systemFolder u n nm c') = Some c'"
  by (simp add: systemFolder_def)

lemma find_None_filter: "find P xs = None \<longleftrightarrow> filter P xs = []"
  by (induction xs) auto

text \<open>The loop adds one system folder for each category that has none, and no other.\<close>

lemma count_initLoop:
  "distinct (map cat_category cs) \<Longrightarrow>
   length (filter (isSystemOf c) (initLoop uuid now fs cs k [])) =
     (if c \<in> cat_category ` set cs \<and> find (isSystemOf c) fs = None then 1 else 0)"
proof (induction cs arbitrary: k)
  case Nil
  then show ?case by simp
next
  case (Cons a cs)
  from Cons.prems have d: "distinct (map cat_category cs)"
    and a: "cat_category a \<notin> cat_category ` set cs"
    by simp_all
  show ?case
    unfolding initLoop_Cons
    using Cons.IH[OF d, of k] Cons.IH[OF d, of "Suc k"] a
    by (auto simp add: isSystemOf_systemFolder)
qed

lemma category_in_initLoop:
  "c \<in> cat_category ` set cs \<Longrightarrow> find (isSystemOf c) fs = None \<Longrightarrow>
   find (\<lambda>f. category f = Some c) (initLoop uuid now fs cs k []) \<noteq> None"
proof (induction cs arbitrary: k)
  case Nil
  then show ?case by simp
next
  case (Cons a cs)
  show ?case
  proof (cases "cat_category a = c")
    case True
    then show ?thesis
      using Cons.prems(2) unfolding initLoop_Cons by (simp add: category_systemFolder)
  next
    case False
    with Cons.prems(1) have "c \<in> cat_category ` set cs" by auto
    then show ?thesis
      using Cons.IH[OF _ Cons.prems(2), of k] Cons.IH[OF _ Cons.prems(2), of "Suc k"] False
      unfolding initLoop_Cons by (simp add: category_systemFolder)
  qed
qed

lemma initLoop_nothing_missing:
  "(\<And>c. c \<in> cat_category ` set cs \<Longrightarrow> find (isSystemOf c) fs \<noteq> None)
     \<Longrightarrow> initLoop uuid now fs cs k [] = []"
proof (induction cs arbitrary: k)
  case Nil
  then show ?case by simp
next
  case (Cons a cs)
  have "find (isSystemOf (cat_category a)) fs \<noteq> None"
    by (rule Cons.prems) simp
  moreover have "initLoop uuid now fs cs k [] = []"
    by (rule Cons.IH) (rule Cons.prems, simp)
  ultimately show ?case unfolding initLoop_Cons by simp
qed

lemma categories_list:
  "map cat_category SYSTEM_CATEGORIES = [''ai-image'', ''ai-video'', ''upload'']"
  by (simp add: SYSTEM_CATEGORIES_def)

lemma categories_set:
  "cat_category ` set SYSTEM_CATEGORIES = {''ai-image'', ''ai-video'', ''upload''}"
  using categories_list by (metis list.set_map list.simps(15) empty_set)

lemma categories_distinct: "distinct (map cat_category SYSTEM_CATEGORIES)"
  by (simp add: categories_list)

text \<open>
  The legacy migration cannot run. Its guard asks for no \<^verbatim>\<open>ai-image\<close> system folder among
  the folders and none among \<^verbatim>\<open>newFolders\<close>; but the loop before it has just pushed one to
  \<^verbatim>\<open>newFolders\<close> whenever the folders have none.
\<close>

lemma migration_unreachable:
  "find (isSystemOf ''ai-image'') fs \<noteq> None
   \<or> find (\<lambda>f. category f = Some ''ai-image'') (initLoop uuid now fs SYSTEM_CATEGORIES 0 []) \<noteq> None"
  using category_in_initLoop[of "''ai-image''" SYSTEM_CATEGORIES fs uuid now 0] categories_set
  by blast

lemma initSystemFolders_appends:
  "initSystemFolders uuid now s
     = appendNewFolders (initLoop uuid now (folders s) SYSTEM_CATEGORIES 0 []) s"
  using migration_unreachable[of "folders s" uuid now]
  by (auto simp add: initSystemFolders_def Let_def split: option.splits)

lemma folders_initSystemFolders:
  "folders (initSystemFolders uuid now s)
     = folders s @ initLoop uuid now (folders s) SYSTEM_CATEGORIES 0 []"
  by (simp add: initSystemFolders_appends appendNewFolders_def)

lemma count_after_init:
  assumes "c \<in> {''ai-image'', ''ai-video'', ''upload''}"
  shows "length (systemFoldersOf c (folders (initSystemFolders uuid now s))) =
     (if systemFoldersOf c (folders s) = [] then 1 else length (systemFoldersOf c (folders s)))"
proof -
  have "length (systemFoldersOf c (folders (initSystemFolders uuid now s)))
      = length (systemFoldersOf c (folders s))
        + length (filter (isSystemOf c) (initLoop uuid now (folders s) SYSTEM_CATEGORIES 0 []))"
    by (simp add: folders_initSystemFolders systemFoldersOf_def)
  also have "length (filter (isSystemOf c) (initLoop uuid now (folders s) SYSTEM_CATEGORIES 0 []))
      = (if find (isSystemOf c) (folders s) = None then 1 else 0)"
    using count_initLoop[OF categories_distinct, of c uuid now "folders s" 0] assms
    by (simp only: categories_set) simp
  finally show ?thesis
    by (simp add: find_None_filter systemFoldersOf_def)
qed

lemma count_ge1:
  assumes "c \<in> {''ai-image'', ''ai-video'', ''upload''}"
  shows "1 \<le> length (systemFoldersOf c (folders (initSystemFolders uuid now s)))"
proof -
  have "length (systemFoldersOf c (folders (initSystemFolders uuid now s))) =
     (if systemFoldersOf c (folders s) = [] then 1 else length (systemFoldersOf c (folders s)))"
    using assms by (rule count_after_init)
  then show ?thesis by (cases "systemFoldersOf c (folders s)") simp_all
qed

lemma count_eq1:
  assumes "c \<in> {''ai-image'', ''ai-video'', ''upload''}"
      and "length (systemFoldersOf c (folders s)) \<le> 1"
  shows "length (systemFoldersOf c (folders (initSystemFolders uuid now s))) = 1"
proof -
  have "length (systemFoldersOf c (folders (initSystemFolders uuid now s))) =
     (if systemFoldersOf c (folders s) = [] then 1 else length (systemFoldersOf c (folders s)))"
    using assms(1) by (rule count_after_init)
  then show ?thesis using assms(2) by (cases "systemFoldersOf c (folders s)") simp_all
qed

lemma found_after_init:
  assumes "c \<in> {''ai-image'', ''ai-video'', ''upload''}"
  shows "find (isSystemOf c) (folders (initSystemFolders uuid now s)) \<noteq> None"
proof -
  have "1 \<le> length (systemFoldersOf c (folders (initSystemFolders uuid now s)))"
    using assms by (rule count_ge1)
  then have "filter (isSystemOf c) (folders (initSystemFolders uuid now s)) \<noteq> []"
    unfolding systemFoldersOf_def by auto
  then show ?thesis by (simp add: find_None_filter)
qed

lemma initSystemFolders_twice:
  "initSystemFolders uuid2 now2 (initSystemFolders uuid now s) = initSystemFolders uuid now s"
proof -
  have "initLoop uuid2 now2 (folders (initSystemFolders uuid now s)) SYSTEM_CATEGORIES 0 [] = []"
  proof (rule initLoop_nothing_missing)
    fix c assume "c \<in> cat_category ` set SYSTEM_CATEGORIES"
    then have "c \<in> {''ai-image'', ''ai-video'', ''upload''}" by (simp only: categories_set)
    then show "find (isSystemOf c) (folders (initSystemFolders uuid now s)) \<noteq> None"
      by (rule found_after_init)
  qed
  then show ?thesis
    by (simp add: initSystemFolders_appends[of uuid2 now2] appendNewFolders_def)
qed

text \<open>
  Claim C5, as the code has it. A second run of \<^verbatim>\<open>initSystemFolders\<close> right after the first
  changes nothing, whatever ids and times the two runs draw. After a run every category of
  the fixed set has at least one system folder; it has exactly one when the store had at
  most one before, since the run adds a folder for a category that has none and never
  removes one.
\<close>

theorem initSystemFolders_idempotent:
  "initSystemFolders uuid2 now2 (initSystemFolders uuid now s) = initSystemFolders uuid now s
   \<and> (\<forall>c\<in>{''ai-image'', ''ai-video'', ''upload''}.
        1 \<le> length (systemFoldersOf c (folders (initSystemFolders uuid now s))))
   \<and> ((\<forall>c\<in>{''ai-image'', ''ai-video'', ''upload''}. length (systemFoldersOf c (folders s)) \<le> 1)
        \<longrightarrow> (\<forall>c\<in>{''ai-image'', ''ai-video'', ''upload''}.
               length (systemFoldersOf c (folders (initSystemFolders uuid now s))) = 1))"
proof (intro conjI ballI impI)
  show "initSystemFolders uuid2 now2 (initSystemFolders uuid now s) = initSystemFolders uuid now s"
    by (rule initSystemFolders_twice)
next
  fix c :: string assume "c \<in> {''ai-image'', ''ai-video'', ''upload''}"
  then show "1 \<le> length (systemFoldersOf c (folders (initSystemFolders uuid now s)))"
    by (rule count_ge1)
next
  fix c :: string
  assume h: "\<forall>c\<in>{''ai-image'', ''ai-video'', ''upload''}.
               length (systemFoldersOf c (folders s)) \<le> 1"
    and c: "c \<in> {''ai-image'', ''ai-video'', ''upload''}"
  from h c have "length (systemFoldersOf c (folders s)) \<le> 1" by (rule bspec)
  with c show "length (systemFoldersOf c (folders (initSystemFolders uuid now s))) = 1"
    by (rule count_eq1)
qed

theorem initSystemFolders_idempotent_witness:
  "\<forall>uuid now uuid2 now2.
     initSystemFolders uuid2 now2 (initSystemFolders uuid now initialStore)
       = initSystemFolders uuid now initialStore
     \<and> length (systemFoldersOf ''ai-image'' (folders (initSystemFolders uuid now initialStore))) = 1
     \<and> length (systemFoldersOf ''ai-video'' (folders (initSystemFolders uuid now initialStore))) = 1
     \<and> length (systemFoldersOf ''upload'' (folders (initSystemFolders uuid now initialStore))) = 1"
proof (intro allI)
  fix uuid now uuid2 now2
  have h: "\<forall>c\<in>{''ai-image'', ''ai-video'', ''upload''}.
             length (systemFoldersOf c (folders initialStore)) \<le> 1"
    by (simp add: initialStore_def systemFoldersOf_def)
  note inst = initSystemFolders_idempotent[of uuid2 now2 uuid now initialStore]
  from inst have twice: "initSystemFolders uuid2 now2 (initSystemFolders uuid now initialStore)
       = initSystemFolders uuid now initialStore"
    by (rule conjunct1)
  from inst h have one: "\<forall>c\<in>{''ai-image'', ''ai-video'', ''upload''}.
       length (systemFoldersOf c (folders (initSystemFolders uuid now initialStore))) = 1"
    by blast
  have "length (systemFoldersOf ''ai-image'' (folders (initSystemFolders uuid now initialStore))) = 1"
    by (rule one[rule_format]) simp
  moreover
  have "length (systemFoldersOf ''ai-video'' (folders (initSystemFolders uuid now initialStore))) = 1"
    by (rule one[rule_format]) simp
  moreover
  have "length (systemFoldersOf ''upload'' (folders (initSystemFolders uuid now initialStore))) = 1"
    by (rule one[rule_format]) simp
  ultimately show "initSystemFolders uuid2 now2 (initSystemFolders uuid now initialStore)
       = initSystemFolders uuid now initialStore
     \<and> length (systemFoldersOf ''ai-image'' (folders (initSystemFolders uuid now initialStore))) = 1
     \<and> length (systemFoldersOf ''ai-video'' (folders (initSystemFolders uuid now initialStore))) = 1
     \<and> length (systemFoldersOf ''upload'' (folders (initSystemFolders uuid now initialStore))) = 1"
    using twice by blast
qed

text \<open>
  Claim C5 as stated fails on a store that already holds two system folders of one
  category: \<^verbatim>\<open>initSystemFolders\<close> only looks for a missing category, so both stay.
\<close>

theorem initSystemFolders_keeps_duplicates:
  "\<forall>uuid now. length (systemFoldersOf ''ai-image'' (folders (initSystemFolders uuid now
      (initialStore\<lparr>folders := [systemFolder ''a'' 0 name_AI_image ''ai-image'',
                                 systemFolder ''b'' 0 name_AI_image ''ai-image'']\<rparr>)))) = 2"
proof (intro allI)
  fix uuid now
  let ?s = "initialStore\<lparr>folders := [systemFolder ''a'' 0 name_AI_image ''ai-image'',
                                 systemFolder ''b'' 0 name_AI_image ''ai-image'']\<rparr>"
  have "systemFoldersOf ''ai-image'' (folders ?s) =
          [systemFolder ''a'' 0 name_AI_image ''ai-image'',
           systemFolder ''b'' 0 name_AI_image ''ai-image'']"
    by (simp add: systemFoldersOf_def isSystemOf_systemFolder)
  moreover have "''ai-image'' \<in> {''ai-image'', ''ai-video'', ''upload''}" by simp
  ultimately show "length (systemFoldersOf ''ai-image'' (folders (initSystemFolders uuid now ?s))) = 2"
    by (simp add: count_after_init)
qed

text \<open>
  Claim C6 against the code. The store holds one folder: a root folder with the legacy
  name, not a system folder, and there is no \<^verbatim>\<open>ai-image\<close> system folder. After
  \<^verbatim>\<open>initSystemFolders\<close> the legacy folder is exactly as before (no \<^verbatim>\<open>isSystem\<close>, no
  \<^verbatim>\<open>category\<close>, its old name), and a new \<^verbatim>\<open>ai-image\<close> system folder with a fresh id stands
  beside it: the promotion the source announces in its comments does not happen.
\<close>

theorem initSystemFolders_legacy_not_migrated:
  "folders (initSystemFolders uuid now
              (initialStore\<lparr>folders := [newFolder ''L'' 0 name_legacy_AI None None]\<rparr>))
     = [ newFolder ''L'' 0 name_legacy_AI None None,
         systemFolder (uuid 0) (now 0) name_AI_image ''ai-image'',
         systemFolder (uuid 1) (now 1) name_AI_video ''ai-video'',
         systemFolder (uuid 2) (now 2) name_upload ''upload'' ]
   \<and> folder_name (newFolder ''L'' 0 name_legacy_AI None None) = name_legacy_AI
   \<and> parentId (newFolder ''L'' 0 name_legacy_AI None None) = None
   \<and> isSystem (newFolder ''L'' 0 name_legacy_AI None None) = None
   \<and> category (newFolder ''L'' 0 name_legacy_AI None None) = None"
proof -
  have n: "\<not> isSystemOf c (newFolder ''L'' 0 name_legacy_AI None None)" for c
    by (simp add: isSystemOf_def newFolder_def)
  have "initLoop uuid now [newFolder ''L'' 0 name_legacy_AI None None] SYSTEM_CATEGORIES 0 []
     = [ systemFolder (uuid 0) (now 0) name_AI_image ''ai-image'',
         systemFolder (uuid 1) (now 1) name_AI_video ''ai-video'',
         systemFolder (uuid 2) (now 2) name_upload ''upload'' ]"
    unfolding SYSTEM_CATEGORIES_def by (simp add: n numeral_2_eq_2)
  then show ?thesis
    by (simp add: folders_initSystemFolders initialStore_def) (simp add: newFolder_def)
qed

theorem initSystemFolders_legacy_not_migrated_witness:
  "\<forall>uuid now.
     hd (folders (initSystemFolders uuid now
                    (initialStore\<lparr>folders := [newFolder ''L'' 0 name_legacy_AI None None]\<rparr>)))
       = newFolder ''L'' 0 name_legacy_AI None None
     \<and> systemFoldersOf ''ai-image''
           (folders (initSystemFolders uuid now
                       (initialStore\<lparr>folders := [newFolder ''L'' 0 name_legacy_AI None None]\<rparr>)))
       = [systemFolder (uuid 0) (now 0) name_AI_image ''ai-image'']"
proof (intro allI)
  fix uuid now
  have n: "\<not> isSystemOf c (newFolder ''L'' 0 name_legacy_AI None None)" for c
    by (simp add: isSystemOf_def newFolder_def)
  from initSystemFolders_legacy_not_migrated[of uuid now]
  have "folders (initSystemFolders uuid now
              (initialStore\<lparr>folders := [newFolder ''L'' 0 name_legacy_AI None None]\<rparr>))
     = [ newFolder ''L'' 0 name_legacy_AI None None,
         systemFolder (uuid 0) (now 0) name_AI_image ''ai-image'',
         systemFolder (uuid 1) (now 1) name_AI_video ''ai-video'',
         systemFolder (uuid 2) (now 2) name_upload ''upload'' ]"
    by (rule conjunct1)
  then show "hd (folders (initSystemFolders uuid now
                    (initialStore\<lparr>folders := [newFolder ''L'' 0 name_legacy_AI None None]\<rparr>)))
       = newFolder ''L'' 0 name_legacy_AI None None
     \<and> systemFoldersOf ''ai-image''
           (folders (initSystemFolders uuid now
                       (initialStore\<lparr>folders := [newFolder ''L'' 0 name_legacy_AI None None]\<rparr>)))
       = [systemFolder (uuid 0) (now 0) name_AI_image ''ai-image'']"
    by (simp add: systemFoldersOf_def n isSystemOf_systemFolder)
qed

end
